theory Spec2Isabelle
  imports Complex_Main "HOL-Library.Signed_Division"
begin

unbundle bit_operations_syntax

section \<open>The SMTP client's error handler policies (smtp\_trouble.c)\<close>

text \<open>
  A shallow embedding of \<^verbatim>\<open>src/smtp/smtp_trouble.c\<close>. C \<^verbatim>\<open>int\<close> and \<^verbatim>\<open>long\<close> values
  are HOL integers: the code only compares them, divides a reply code by 100 (C's
  truncating division, \<open>sdiv\<close>) and combines status words with bitwise or, none of which
  can overflow. Nullable pointers are options, the recipient array is a list, the stream
  \<^verbatim>\<open>state->src\<close> is a handle, the variadic format and its arguments are the formatted
  text, and the calls into other modules (logging, defer, bounce, deliver\_completed) are
  recorded, in order, in an event log that is threaded through every function next to the
  state. Running out of memory, which is fatal in Postfix, is not modelled.
\<close>

subsection \<open>Data\<close>

record RECIPIENT =
  offset :: int
  orig_addr :: string
  address :: string

record DELIVER_REQUEST =
  flags :: int
  queue_id :: string
  arrival_time :: int
  rcpt_list :: "RECIPIENT list"
  hop_status :: "string option"

record SMTP_SESSION =
  namaddr :: string

record SMTP_STATE =
  src :: nat
  request :: DELIVER_REQUEST
  session :: "SMTP_SESSION option"
  status :: int
  final_server :: int
  error_mask :: int

text \<open>The arguments of one \<^verbatim>\<open>defer_append\<close> or \<^verbatim>\<open>bounce_append\<close> call, in the order of the call.\<close>

record append_args =
  a_flags :: int
  a_queue_id :: string
  a_orig_rcpt :: string
  a_recipient :: string
  a_offset :: int
  a_relay :: string
  a_entry :: int
  a_why :: string

datatype event =
    Msg_info string
  | Defer_append append_args
  | Bounce_append append_args
  | Deliver_completed nat int

text \<open>
  What the file takes from headers and modules outside it: the two collaborators' result
  (which may depend on everything logged before the call), the macro
  \<^verbatim>\<open>DEL_REQ_TRACE_FLAGS\<close> and the constants \<^verbatim>\<open>MAIL_ERROR_PROTOCOL\<close>, \<^verbatim>\<open>SMTP_ERR_EOF\<close>
  and \<^verbatim>\<open>SMTP_ERR_TIME\<close>.
\<close>

record env =
  defer_append :: "event list \<Rightarrow> append_args \<Rightarrow> int"
  bounce_append :: "event list \<Rightarrow> append_args \<Rightarrow> int"
  DEL_REQ_TRACE_FLAGS :: "int \<Rightarrow> int"
  MAIL_ERROR_PROTOCOL :: int
  SMTP_ERR_EOF :: int
  SMTP_ERR_TIME :: int

text \<open>
  The ways a call does not return: \<^verbatim>\<open>msg_panic\<close>, the read of \<^verbatim>\<open>session->namaddr\<close>
  through a null session, and a recipient pointer that is not an element of the request's
  recipient list.
\<close>

datatype fault = Panic string int | Null_session | Bad_recipient

type_synonym world = "SMTP_STATE \<times> event list"

subsection \<open>Response codes\<close>

definition SMTP_SOFT :: "int \<Rightarrow> bool" where
  "SMTP_SOFT code \<longleftrightarrow> code sdiv 100 = 4"

definition SMTP_HARD :: "int \<Rightarrow> bool" where
  "SMTP_HARD code \<longleftrightarrow> code sdiv 100 = 5"

definition smtp_check_code :: "env \<Rightarrow> SMTP_STATE \<Rightarrow> int \<Rightarrow> SMTP_STATE" where
  "smtp_check_code e state code =
     (if (\<not> SMTP_SOFT code \<and> \<not> SMTP_HARD code)
         \<or> code = 555
         \<or> (code \<ge> 500 \<and> code < 510)
      then state\<lparr>error_mask := error_mask state OR MAIL_ERROR_PROTOCOL e\<rparr>
      else state)"

text \<open>
  The three-way class that the two macros give a reply code, and the specification's
  wording of the two tests, by the code's first digit: \<open>first_digit\<close> is the class
  digit of a three-digit code, and the reserved sub-range is the code's 500..509.
\<close>

datatype code_class = Soft | Hard | Neither

definition classify :: "int \<Rightarrow> code_class" where
  "classify code = (if SMTP_SOFT code then Soft else if SMTP_HARD code then Hard else Neither)"

definition first_digit :: "int \<Rightarrow> int" where
  "first_digit code = code div 100"

definition spec_classify :: "int \<Rightarrow> code_class" where
  "spec_classify code =
     (if first_digit code = 4 then Soft else if first_digit code = 5 then Hard else Neither)"

definition spec_is_protocol_anomaly :: "int \<Rightarrow> bool" where
  "spec_is_protocol_anomaly code \<longleftrightarrow>
     (first_digit code \<noteq> 4 \<and> first_digit code \<noteq> 5) \<or> code = 555 \<or> code \<in> {500..509}"

subsection \<open>The collaborators' arguments\<close>

text \<open>
  The argument list that all four functions pass to \<^verbatim>\<open>defer_append\<close> and
  \<^verbatim>\<open>bounce_append\<close>; they differ in the host name and in the text only.
\<close>

definition append_call ::
  "env \<Rightarrow> DELIVER_REQUEST \<Rightarrow> RECIPIENT \<Rightarrow> string \<Rightarrow> string \<Rightarrow> append_args" where
  "append_call e req rcpt relay why =
     \<lparr>a_flags = DEL_REQ_TRACE_FLAGS e (flags req), a_queue_id = queue_id req,
      a_orig_rcpt = orig_addr rcpt, a_recipient = address rcpt, a_offset = offset rcpt,
      a_relay = relay, a_entry = arrival_time req, a_why = why\<rparr>"

subsection \<open>smtp\_site\_fail\<close>

text \<open>
  The loop over \<^verbatim>\<open>request->rcpt_list\<close>, by recursion on the recipients still to visit.
  It returns the visited recipients, \<^verbatim>\<open>state->status\<close> and the log; \<open>state\<close> gives the
  fields the loop only reads.
\<close>

fun site_fail_loop ::
  "env \<Rightarrow> SMTP_STATE \<Rightarrow> bool \<Rightarrow> string \<Rightarrow> RECIPIENT list \<Rightarrow> int \<Rightarrow> event list
     \<Rightarrow> RECIPIENT list \<times> int \<times> event list" where
  "site_fail_loop e state soft_error why [] st tr = ([], st, tr)"
| "site_fail_loop e state soft_error why (rcpt # rest) st tr =
     (if offset rcpt = 0 then
        (case site_fail_loop e state soft_error why rest st tr of
           (rest', st', tr') \<Rightarrow> (rcpt # rest', st', tr'))
      else
        let args = append_call e (request state) rcpt
                     (case session state of Some s \<Rightarrow> namaddr s | None \<Rightarrow> ''none'') why;
            status' = (if soft_error then defer_append e else bounce_append e) tr args;
            tr1 = tr @ [if soft_error then Defer_append args else Bounce_append args];
            tr2 = (if status' = 0 then tr1 @ [Deliver_completed (src state) (offset rcpt)] else tr1);
            rcpt' = (if status' = 0 then rcpt\<lparr>offset := 0\<rparr> else rcpt)
        in (case site_fail_loop e state soft_error why rest (st OR status') tr2 of
              (rest', st', tr') \<Rightarrow> (rcpt' # rest', st', tr')))"

definition smtp_site_fail :: "env \<Rightarrow> world \<Rightarrow> int \<Rightarrow> string \<Rightarrow> int \<times> world" where
  "smtp_site_fail e w code why =
     (case w of (state, tr) \<Rightarrow>
        let soft_error = SMTP_SOFT code in
        if soft_error \<and> final_server state = 0 then
          (- 1, smtp_check_code e (state\<lparr>status := status state OR (- 1)\<rparr>) code,
             tr @ [Msg_info (queue_id (request state) @ '': '' @ why)])
        else
          (case site_fail_loop e state soft_error why (rcpt_list (request state)) (status state) tr of
             (rcpts, st, tr') \<Rightarrow>
               let req1 = (request state)\<lparr>rcpt_list := rcpts\<rparr>;
                   req2 = (if soft_error \<and> hop_status req1 = None
                           then req1\<lparr>hop_status := Some why\<rparr> else req1)
               in (- 1, smtp_check_code e
                          (state\<lparr>request := req2, status := st, final_server := 1\<rparr>) code,
                     tr')))"

subsection \<open>smtp\_mesg\_fail\<close>

fun mesg_fail_loop ::
  "env \<Rightarrow> SMTP_STATE \<Rightarrow> bool \<Rightarrow> string \<Rightarrow> RECIPIENT list \<Rightarrow> int \<Rightarrow> event list
     \<Rightarrow> fault + RECIPIENT list \<times> int \<times> event list" where
  "mesg_fail_loop e state soft_error why [] st tr = Inr ([], st, tr)"
| "mesg_fail_loop e state soft_error why (rcpt # rest) st tr =
     (if offset rcpt = 0 then
        (case mesg_fail_loop e state soft_error why rest st tr of
           Inl f \<Rightarrow> Inl f
         | Inr (rest', st', tr') \<Rightarrow> Inr (rcpt # rest', st', tr'))
      else
        (case session state of
           None \<Rightarrow> Inl Null_session
         | Some s \<Rightarrow>
            let args = append_call e (request state) rcpt (namaddr s) why;
                status' = (if soft_error then defer_append e else bounce_append e) tr args;
                tr1 = tr @ [if soft_error then Defer_append args else Bounce_append args];
                tr2 = (if status' = 0 then tr1 @ [Deliver_completed (src state) (offset rcpt)] else tr1);
                rcpt' = (if status' = 0 then rcpt\<lparr>offset := 0\<rparr> else rcpt)
            in (case mesg_fail_loop e state soft_error why rest (st OR status') tr2 of
                  Inl f \<Rightarrow> Inl f
                | Inr (rest', st', tr') \<Rightarrow> Inr (rcpt' # rest', st', tr'))))"

definition smtp_mesg_fail :: "env \<Rightarrow> world \<Rightarrow> int \<Rightarrow> string \<Rightarrow> fault + int \<times> world" where
  "smtp_mesg_fail e w code why =
     (case w of (state, tr) \<Rightarrow>
        let soft_error = SMTP_SOFT code in
        if soft_error \<and> final_server state = 0 then
          Inr (- 1, smtp_check_code e (state\<lparr>status := status state OR (- 1)\<rparr>) code,
                 tr @ [Msg_info (queue_id (request state) @ '': '' @ why)])
        else
          (case mesg_fail_loop e state soft_error why (rcpt_list (request state)) (status state) tr of
             Inl f \<Rightarrow> Inl f
           | Inr (rcpts, st, tr') \<Rightarrow>
               Inr (- 1, smtp_check_code e
                          (state\<lparr>request := (request state)\<lparr>rcpt_list := rcpts\<rparr>,
                                 status := st, final_server := 1\<rparr>) code,
                      tr')))"

subsection \<open>smtp\_rcpt\_fail\<close>

text \<open>
  The recipient is given as its index \<open>n\<close> in the request's list, for the callers'
  \<^verbatim>\<open>request->rcpt_list.info + n\<close>. The skip branch never looks at the recipient.
\<close>

definition smtp_rcpt_fail :: "env \<Rightarrow> world \<Rightarrow> int \<Rightarrow> nat \<Rightarrow> string \<Rightarrow> fault + world" where
  "smtp_rcpt_fail e w code n why =
     (case w of (state, tr) \<Rightarrow>
        let soft_error = SMTP_SOFT code in
        if soft_error \<and> final_server state = 0 then
          (let tr1 = tr @ [Msg_info (queue_id (request state) @ '': '' @ why)];
               status' = - 1;
               state1 = smtp_check_code e state code
           in Inr (state1\<lparr>status := status state1 OR status'\<rparr>, tr1))
        else if \<not> n < length (rcpt_list (request state)) then Inl Bad_recipient
        else
          (case session state of
             None \<Rightarrow> Inl Null_session
           | Some s \<Rightarrow>
              let rcpt = rcpt_list (request state) ! n;
                  args = append_call e (request state) rcpt (namaddr s) why;
                  status' = (if soft_error then defer_append e else bounce_append e) tr args;
                  tr1 = tr @ [if soft_error then Defer_append args else Bounce_append args];
                  tr2 = (if status' = 0 then tr1 @ [Deliver_completed (src state) (offset rcpt)] else tr1);
                  state1 = (if status' = 0
                            then state\<lparr>request := (request state)
                                   \<lparr>rcpt_list := (rcpt_list (request state))[n := rcpt\<lparr>offset := 0\<rparr>]\<rparr>\<rparr>
                            else state);
                  state2 = smtp_check_code e state1 code
              in Inr (state2\<lparr>status := status state2 OR status'\<rparr>, tr2)))"

subsection \<open>smtp\_stream\_except\<close>

fun stream_except_loop ::
  "env \<Rightarrow> SMTP_STATE \<Rightarrow> SMTP_SESSION \<Rightarrow> string \<Rightarrow> RECIPIENT list \<Rightarrow> int \<Rightarrow> event list
     \<Rightarrow> int \<times> event list" where
  "stream_except_loop e state s why [] st tr = (st, tr)"
| "stream_except_loop e state s why (rcpt # rest) st tr =
     (if offset rcpt = 0 then stream_except_loop e state s why rest st tr
      else
        let args = append_call e (request state) rcpt (namaddr s) why
        in stream_except_loop e state s why rest
             (st OR defer_append e tr args) (tr @ [Defer_append args]))"

definition smtp_stream_except :: "env \<Rightarrow> world \<Rightarrow> int \<Rightarrow> string \<Rightarrow> fault + int \<times> world" where
  "smtp_stream_except e w code description =
     (case w of (state, tr) \<Rightarrow>
        if code \<noteq> SMTP_ERR_EOF e \<and> code \<noteq> SMTP_ERR_TIME e then
          Inl (Panic ''smtp_stream_except: unknown exception'' code)
        else
          (case session state of
             None \<Rightarrow> Inl Null_session
           | Some s \<Rightarrow>
              let why = (if code = SMTP_ERR_EOF e
                         then ''lost connection with '' @ namaddr s @ '' while '' @ description
                         else ''conversation with '' @ namaddr s @ '' timed out while '' @ description)
              in if final_server state = 0 then
                   Inr (- 1, state\<lparr>status := status state OR (- 1)\<rparr>,
                          tr @ [Msg_info (queue_id (request state) @ '': '' @ why)])
                 else
                   (case stream_except_loop e state s why (rcpt_list (request state)) (status state) tr of
                      (st, tr') \<Rightarrow> Inr (- 1, state\<lparr>status := st\<rparr>, tr'))))"

subsection \<open>Sequences of calls\<close>

datatype call =
    Site_fail int string
  | Mesg_fail int string
  | Rcpt_fail int nat string
  | Stream_except int string

fun step :: "env \<Rightarrow> world \<Rightarrow> call \<Rightarrow> fault + world" where
  "step e w (Site_fail code why) = Inr (snd (smtp_site_fail e w code why))"
| "step e w (Mesg_fail code why) =
     (case smtp_mesg_fail e w code why of Inl f \<Rightarrow> Inl f | Inr (r, w') \<Rightarrow> Inr w')"
| "step e w (Rcpt_fail code n why) = smtp_rcpt_fail e w code n why"
| "step e w (Stream_except code description) =
     (case smtp_stream_except e w code description of Inl f \<Rightarrow> Inl f | Inr (r, w') \<Rightarrow> Inr w')"

text \<open>A fault ends the run: the process has stopped.\<close>

fun run :: "env \<Rightarrow> world \<Rightarrow> call list \<Rightarrow> fault + world" where
  "run e w [] = Inr w"
| "run e w (c # cs) = (case step e w c of Inl f \<Rightarrow> Inl f | Inr w' \<Rightarrow> run e w' cs)"

text \<open>Observers of the state and of the log.\<close>

definition offsets :: "SMTP_STATE \<Rightarrow> int list" where
  "offsets state = map offset (rcpt_list (request state))"

definition zeros :: "RECIPIENT list \<Rightarrow> nat" where
  "zeros xs = length (filter (\<lambda>r. offset r = 0) xs)"

definition finalized :: "SMTP_STATE \<Rightarrow> nat" where
  "finalized state = zeros (rcpt_list (request state))"

definition pending :: "SMTP_STATE \<Rightarrow> nat" where
  "pending state = length (filter (\<lambda>r. offset r \<noteq> 0) (rcpt_list (request state)))"

text \<open>What a call may do to one recipient: nothing, or clear the offset of a pending one.\<close>

definition cleared :: "RECIPIENT \<Rightarrow> RECIPIENT \<Rightarrow> bool" where
  "cleared r r' \<longleftrightarrow> r' = r \<or> (offset r \<noteq> 0 \<and> r' = r\<lparr>offset := 0\<rparr>)"

fun ev_offset :: "event \<Rightarrow> int option" where
  "ev_offset (Msg_info m) = None"
| "ev_offset (Defer_append a) = Some (a_offset a)"
| "ev_offset (Bounce_append a) = Some (a_offset a)"
| "ev_offset (Deliver_completed s off) = Some off"

fun ev_relay :: "event \<Rightarrow> string option" where
  "ev_relay (Defer_append a) = Some (a_relay a)"
| "ev_relay (Bounce_append a) = Some (a_relay a)"
| "ev_relay ev = None"

fun is_completed :: "event \<Rightarrow> bool" where
  "is_completed (Deliver_completed s off) = True"
| "is_completed ev = False"

definition completed :: "event list \<Rightarrow> nat" where
  "completed tr = length (filter is_completed tr)"

text \<open>
  The events of the loops: \<open>site_event\<close> for those of \<^verbatim>\<open>smtp_site_fail\<close> and
  \<^verbatim>\<open>smtp_mesg_fail\<close>, \<open>stream_event\<close> for those of \<^verbatim>\<open>smtp_stream_except\<close>.
\<close>

definition site_event :: "SMTP_STATE \<Rightarrow> event \<Rightarrow> bool" where
  "site_event state ev \<longleftrightarrow> ev_offset ev \<noteq> Some 0 \<and>
     ev_relay ev \<in> {None, Some (case session state of Some s \<Rightarrow> namaddr s | None \<Rightarrow> ''none'')}"

definition stream_event :: "SMTP_SESSION \<Rightarrow> string \<Rightarrow> event \<Rightarrow> bool" where
  "stream_event s why ev \<longleftrightarrow> (\<exists>a. ev = Defer_append a \<and> a_offset a \<noteq> 0
            \<and> a_relay a = namaddr s \<and> a_why a = why)"



fun is_rcpt_fail :: "call \<Rightarrow> bool" where
  "is_rcpt_fail (Rcpt_fail code n why) = True"
| "is_rcpt_fail c = False"

text \<open>
  The caller's obligation for \<^verbatim>\<open>smtp_rcpt_fail\<close>, which does not test the offset itself:
  the recipient is one of the request's and is still pending when the call is made.
  \<open>pending_run\<close> asks it of every call of a run, in the state the call is made in.
\<close>

fun call_pending :: "world \<Rightarrow> call \<Rightarrow> bool" where
  "call_pending w (Rcpt_fail code n why) \<longleftrightarrow>
     n < length (rcpt_list (request (fst w))) \<and> offset (rcpt_list (request (fst w)) ! n) \<noteq> 0"
| "call_pending w c \<longleftrightarrow> True"

fun pending_run :: "env \<Rightarrow> world \<Rightarrow> call list \<Rightarrow> bool" where
  "pending_run e w [] \<longleftrightarrow> True"
| "pending_run e w (c # cs) \<longleftrightarrow>
     call_pending w c \<and> (case step e w c of Inl f \<Rightarrow> True | Inr w' \<Rightarrow> pending_run e w' cs)"

text \<open>
  The calls that meet the callers' obligations for a request of \<open>len\<close> recipients: a
  recipient of the request, an exception kind that \<^verbatim>\<open>smtp_stream(3)\<close> raises.
\<close>

fun call_ok :: "env \<Rightarrow> nat \<Rightarrow> call \<Rightarrow> bool" where
  "call_ok e len (Rcpt_fail code n why) \<longleftrightarrow> n < len"
| "call_ok e len (Stream_except code description) \<longleftrightarrow>
     code = SMTP_ERR_EOF e \<or> code = SMTP_ERR_TIME e"
| "call_ok e len c \<longleftrightarrow> True"

subsection \<open>An example environment and request\<close>

text \<open>
  Example values for what the headers define (the protocol error bit, the two exception
  kinds), a trace mask that keeps every flag, and collaborators that always succeed
  (\<open>env_ok\<close>) or always fail (\<open>env_fail\<close>).
\<close>

definition env_ok :: env where
  "env_ok = \<lparr>defer_append = (\<lambda>tr a. 0), bounce_append = (\<lambda>tr a. 0),
             DEL_REQ_TRACE_FLAGS = (\<lambda>f. f), MAIL_ERROR_PROTOCOL = 2,
             SMTP_ERR_EOF = 1, SMTP_ERR_TIME = 2\<rparr>"

definition env_fail :: env where
  "env_fail = env_ok\<lparr>defer_append := (\<lambda>tr a. - 1), bounce_append := (\<lambda>tr a. 4)\<rparr>"

definition rcpt_a :: RECIPIENT where
  "rcpt_a = \<lparr>offset = 120, orig_addr = ''a@x'', address = ''a@y''\<rparr>"

definition rcpt_b :: RECIPIENT where
  "rcpt_b = \<lparr>offset = 0, orig_addr = ''b@x'', address = ''b@y''\<rparr>"

definition rcpt_c :: RECIPIENT where
  "rcpt_c = \<lparr>offset = 200, orig_addr = ''c@x'', address = ''c@y''\<rparr>"

definition rcpts_done :: "RECIPIENT list" where
  "rcpts_done = [rcpt_a\<lparr>offset := 0\<rparr>, rcpt_b, rcpt_c\<lparr>offset := 0\<rparr>]"

definition req0 :: DELIVER_REQUEST where
  "req0 = \<lparr>flags = 0, queue_id = ''Q1'', arrival_time = 7,
            rcpt_list = [rcpt_a, rcpt_b, rcpt_c], hop_status = None\<rparr>"

definition state0 :: SMTP_STATE where
  "state0 = \<lparr>src = 3, request = req0, session = Some \<lparr>namaddr = ''mx1''\<rparr>,
              status = 0, final_server = 0, error_mask = 0\<rparr>"

section \<open>The deadline tracker\<close>

text \<open>
  The request deadline accounting of the stream layer is not among the sources: the
  release notes describe it, and the specification's section 4.2 gives its operations.
  Durations are seconds, byte counts and the rate are naturals.
\<close>

record DeadlineBudget =
  remaining :: real
  ceiling_d :: real
  floor_rate :: nat

datatype tracker_state = Active | Exhausted

text \<open>
  Modelled from the spec: \<open>start\<close>, the missing initialisation; the remaining budget is
  the configured request deadline, and the ceiling and the floor rate are recorded.
\<close>

definition start :: "real \<Rightarrow> real \<Rightarrow> nat \<Rightarrow> DeadlineBudget" where
  "start deadline ceil rate = \<lparr>remaining = deadline, ceiling_d = ceil, floor_rate = rate\<rparr>"

text \<open>
  Modelled from the spec: \<open>on_read\<close>, the missing update after a read operation;
  subtract the elapsed time, add bytes / floor\_rate seconds when the floor rate is
  enabled and bytes were transferred, then clamp to the ceiling.
\<close>

definition on_read :: "DeadlineBudget \<Rightarrow> nat \<Rightarrow> real \<Rightarrow> DeadlineBudget" where
  "on_read b bytes_transferred elapsed =
     (let b1 = b\<lparr>remaining := remaining b - elapsed\<rparr>;
          b2 = (if floor_rate b1 \<noteq> 0 \<and> bytes_transferred > 0
                then b1\<lparr>remaining := remaining b1 + real bytes_transferred / real (floor_rate b1)\<rparr>
                else b1)
      in if remaining b2 > ceiling_d b2 then b2\<lparr>remaining := ceiling_d b2\<rparr> else b2)"

text \<open>
  Modelled from the spec: the tracker's two states; Exhausted when the remaining budget
  is at most 0.
\<close>

definition tracker_state :: "DeadlineBudget \<Rightarrow> tracker_state" where
  "tracker_state b = (if remaining b \<le> 0 then Exhausted else Active)"

section \<open>Properties\<close>

subsection \<open>Response codes\<close>

lemma SMTP_SOFT_iff: "SMTP_SOFT code \<longleftrightarrow> 400 \<le> code \<and> code \<le> 499"
  unfolding SMTP_SOFT_def signed_divide_int_def
  by (cases "code \<ge> 0") (auto simp: sgn_if abs_if)

lemma SMTP_HARD_iff: "SMTP_HARD code \<longleftrightarrow> 500 \<le> code \<and> code \<le> 599"
  unfolding SMTP_HARD_def signed_divide_int_def
  by (cases "code \<ge> 0") (auto simp: sgn_if abs_if)

lemma first_digit_4: "first_digit code = 4 \<longleftrightarrow> 400 \<le> code \<and> code \<le> 499"
  unfolding first_digit_def by presburger

lemma first_digit_5: "first_digit code = 5 \<longleftrightarrow> 500 \<le> code \<and> code \<le> 599"
  unfolding first_digit_def by presburger

subsection \<open>The loops\<close>

lemma append_call_sel [simp]:
  "a_offset (append_call e req rcpt relay why) = offset rcpt"
  "a_relay (append_call e req rcpt relay why) = relay"
  "a_why (append_call e req rcpt relay why) = why"
  by (simp_all add: append_call_def)

lemma cleared_refl: "cleared r r"
  by (simp add: cleared_def)

lemma cleared_trans: "cleared a b \<Longrightarrow> cleared b c \<Longrightarrow> cleared a c"
  by (auto simp: cleared_def)

lemma site_fail_loop_cleared:
  "site_fail_loop e state soft why xs st tr = (xs', st', tr') \<Longrightarrow> list_all2 cleared xs xs'"
  by (induction xs arbitrary: st tr xs' st' tr')
     (auto simp: Let_def cleared_def split: prod.splits if_splits)

lemma site_fail_loop_trace:
  "site_fail_loop e state soft why xs st tr = (xs', st', tr') \<Longrightarrow>
   \<exists>new. tr' = tr @ new \<and> (\<forall>ev\<in>set new. site_event state ev)"
proof (induction xs arbitrary: st tr xs' st' tr')
  case Nil
  then show ?case by simp
next
  case (Cons r rest)
  show ?case
  proof (cases "offset r = 0")
    case True
    with Cons.prems obtain rest' where "site_fail_loop e state soft why rest st tr = (rest', st', tr')"
      by (auto split: prod.splits)
    from Cons.IH[OF this] show ?thesis .
  next
    case False
    define args where "args = append_call e (request state) r
                     (case session state of Some s \<Rightarrow> namaddr s | None \<Rightarrow> ''none'') why"
    define res where "res = (if soft then defer_append e else bounce_append e) tr args"
    define n1 where "n1 = [if soft then Defer_append args else Bounce_append args]
        @ (if res = 0 then [Deliver_completed (src state) (offset r)] else [])"
    from False Cons.prems obtain rest' where
      rec: "site_fail_loop e state soft why rest (st OR res) (tr @ n1) = (rest', st', tr')"
      by (auto simp: Let_def args_def res_def n1_def split: prod.splits if_splits)
    have n1: "\<forall>ev\<in>set n1. site_event state ev"
      using False by (auto simp: n1_def args_def site_event_def)
    from Cons.IH[OF rec] obtain new where "tr' = (tr @ n1) @ new" "\<forall>ev\<in>set new. site_event state ev"
      by blast
    with n1 show ?thesis by (intro exI[of _ "n1 @ new"]) auto
  qed
qed

lemma site_fail_loop_completed:
  "site_fail_loop e state soft why xs st tr = (xs', st', tr') \<Longrightarrow>
   completed tr' + zeros xs = completed tr + zeros xs'"
  by (induction xs arbitrary: st tr xs' st' tr')
     (auto simp: Let_def completed_def zeros_def split: prod.splits if_splits)

lemma stream_except_loop_trace:
  "stream_except_loop e state s why xs st tr = (st', tr') \<Longrightarrow>
   \<exists>new. tr' = tr @ new \<and> (\<forall>ev\<in>set new. stream_event s why ev)"
proof (induction xs arbitrary: st tr)
  case Nil
  then show ?case by simp
next
  case (Cons r rest)
  show ?case
  proof (cases "offset r = 0")
    case True
    with Cons show ?thesis by simp
  next
    case False
    define a where "a = append_call e (request state) r (namaddr s) why"
    from False Cons.prems
    have rec: "stream_except_loop e state s why rest (st OR defer_append e tr a) (tr @ [Defer_append a]) = (st', tr')"
      by (simp add: Let_def a_def)
    have a: "stream_event s why (Defer_append a)"
      using False by (simp add: a_def stream_event_def)
    from Cons.IH[OF rec] obtain new where "tr' = (tr @ [Defer_append a]) @ new"
      and "\<forall>ev\<in>set new. stream_event s why ev" by blast
    with a show ?thesis by (intro exI[of _ "Defer_append a # new"]) auto
  qed
qed

lemma mesg_fail_loop_Some:
  "session state = Some s \<Longrightarrow>
   mesg_fail_loop e state soft why xs st tr = Inr (site_fail_loop e state soft why xs st tr)"
  by (induction xs arbitrary: st tr) (auto simp: Let_def split: prod.splits)

lemma mesg_fail_loop_None:
  "session state = None \<Longrightarrow>
   mesg_fail_loop e state soft why xs st tr =
     (if \<exists>r\<in>set xs. offset r \<noteq> 0 then Inl Null_session else Inr (xs, st, tr))"
  by (induction xs arbitrary: st tr) (auto simp: Let_def split: prod.splits)

lemma mesg_fail_loop_Inr:
  "mesg_fail_loop e state soft why xs st tr = Inr res \<Longrightarrow>
   site_fail_loop e state soft why xs st tr = res"
  by (induction xs arbitrary: st tr res) (auto simp: Let_def split: prod.splits if_splits option.splits sum.splits)

subsection \<open>The entry points\<close>

lemma smtp_check_code_frame [simp]:
  "request (smtp_check_code e state code) = request state"
  "final_server (smtp_check_code e state code) = final_server state"
  "status (smtp_check_code e state code) = status state"
  "session (smtp_check_code e state code) = session state"
  "src (smtp_check_code e state code) = src state"
  by (simp_all add: smtp_check_code_def)

lemma smtp_check_code_mask [simp]:
  "error_mask (smtp_check_code e (state\<lparr>status := st\<rparr>) code) = error_mask (smtp_check_code e state code)"
  "error_mask (smtp_check_code e (state\<lparr>request := rq\<rparr>) code) = error_mask (smtp_check_code e state code)"
  "error_mask (smtp_check_code e (state\<lparr>final_server := fs\<rparr>) code) = error_mask (smtp_check_code e state code)"
  by (simp_all add: smtp_check_code_def)

lemma list_all2_cleared_refl: "list_all2 cleared xs xs"
  by (simp add: list_all2_refl cleared_refl)

lemma site_fail_cleared:
  "smtp_site_fail e (state, tr) code why = (r, state', tr') \<Longrightarrow>
   list_all2 cleared (rcpt_list (request state)) (rcpt_list (request state'))"
  by (auto simp: smtp_site_fail_def Let_def list_all2_cleared_refl
        split: prod.splits if_splits dest: site_fail_loop_cleared)

lemma site_fail_final_server:
  "smtp_site_fail e (state, tr) code why = (r, state', tr') \<Longrightarrow>
   final_server state' = (if SMTP_SOFT code \<and> final_server state = 0 then final_server state else 1)"
  by (auto simp: smtp_site_fail_def Let_def split: prod.splits if_splits)

lemma site_fail_hop_status:
  "smtp_site_fail e (state, tr) code why = (r, state', tr') \<Longrightarrow>
   hop_status (request state') =
     (if SMTP_SOFT code \<and> final_server state \<noteq> 0 \<and> hop_status (request state) = None
      then Some why else hop_status (request state))"
  by (auto simp: smtp_site_fail_def Let_def split: prod.splits if_splits)

lemma site_fail_error_mask:
  "smtp_site_fail e (state, tr) code why = (r, state', tr') \<Longrightarrow>
   error_mask state' = error_mask (smtp_check_code e state code)"
  by (auto simp: smtp_site_fail_def Let_def split: prod.splits if_splits)

lemma site_fail_trace:
  "smtp_site_fail e (state, tr) code why = (r, state', tr') \<Longrightarrow>
   \<exists>new. tr' = tr @ new \<and> (\<forall>ev\<in>set new. site_event state ev)"
  by (auto simp: smtp_site_fail_def Let_def site_event_def split: prod.splits if_splits
        dest: site_fail_loop_trace)

lemma site_fail_completed:
  "smtp_site_fail e (state, tr) code why = (r, state', tr') \<Longrightarrow>
   completed tr' + zeros (rcpt_list (request state)) = completed tr + zeros (rcpt_list (request state'))"
  by (auto simp: smtp_site_fail_def Let_def completed_def split: prod.splits if_splits
        dest: site_fail_loop_completed)

lemma mesg_fail_cleared:
  "smtp_mesg_fail e (state, tr) code why = Inr (r, state', tr') \<Longrightarrow>
   list_all2 cleared (rcpt_list (request state)) (rcpt_list (request state'))"
  by (auto simp: smtp_mesg_fail_def Let_def list_all2_cleared_refl
        split: prod.splits if_splits sum.splits dest!: mesg_fail_loop_Inr dest: site_fail_loop_cleared)

lemma mesg_fail_final_server:
  "smtp_mesg_fail e (state, tr) code why = Inr (r, state', tr') \<Longrightarrow>
   final_server state' = (if SMTP_SOFT code \<and> final_server state = 0 then final_server state else 1)"
  by (auto simp: smtp_mesg_fail_def Let_def split: prod.splits if_splits sum.splits)

lemma mesg_fail_hop_status:
  "smtp_mesg_fail e (state, tr) code why = Inr (r, state', tr') \<Longrightarrow>
   hop_status (request state') = hop_status (request state)"
  by (auto simp: smtp_mesg_fail_def Let_def split: prod.splits if_splits sum.splits)

lemma mesg_fail_error_mask:
  "smtp_mesg_fail e (state, tr) code why = Inr (r, state', tr') \<Longrightarrow>
   error_mask state' = error_mask (smtp_check_code e state code)"
  by (auto simp: smtp_mesg_fail_def Let_def split: prod.splits if_splits sum.splits)

lemma mesg_fail_trace:
  "smtp_mesg_fail e (state, tr) code why = Inr (r, state', tr') \<Longrightarrow>
   \<exists>new. tr' = tr @ new \<and> (\<forall>ev\<in>set new. site_event state ev)"
  by (auto simp: smtp_mesg_fail_def Let_def site_event_def split: prod.splits if_splits sum.splits
        dest!: mesg_fail_loop_Inr dest: site_fail_loop_trace)

lemma mesg_fail_completed:
  "smtp_mesg_fail e (state, tr) code why = Inr (r, state', tr') \<Longrightarrow>
   completed tr' + zeros (rcpt_list (request state)) = completed tr + zeros (rcpt_list (request state'))"
  by (auto simp: smtp_mesg_fail_def Let_def completed_def split: prod.splits if_splits sum.splits
        dest!: mesg_fail_loop_Inr dest: site_fail_loop_completed)

lemma list_all2_cleared_update:
  "n < length xs \<Longrightarrow> list_all2 cleared xs (xs[n := (xs ! n)\<lparr>offset := 0\<rparr>])"
  by (auto simp: list_all2_conv_all_nth nth_list_update cleared_def)

lemma rcpt_fail_cleared:
  "smtp_rcpt_fail e (state, tr) code n why = Inr (state', tr') \<Longrightarrow>
   list_all2 cleared (rcpt_list (request state)) (rcpt_list (request state'))"
  by (auto simp: smtp_rcpt_fail_def Let_def list_all2_cleared_refl list_all2_cleared_update
        split: prod.splits if_splits option.splits)

lemma rcpt_fail_final_server:
  "smtp_rcpt_fail e (state, tr) code n why = Inr (state', tr') \<Longrightarrow>
   final_server state' = final_server state"
  by (auto simp: smtp_rcpt_fail_def Let_def split: prod.splits if_splits option.splits)

lemma rcpt_fail_hop_status:
  "smtp_rcpt_fail e (state, tr) code n why = Inr (state', tr') \<Longrightarrow>
   hop_status (request state') = hop_status (request state)"
  by (auto simp: smtp_rcpt_fail_def Let_def split: prod.splits if_splits option.splits)

lemma rcpt_fail_error_mask:
  "smtp_rcpt_fail e (state, tr) code n why = Inr (state', tr') \<Longrightarrow>
   error_mask state' = error_mask (smtp_check_code e state code)"
  by (auto simp: smtp_rcpt_fail_def Let_def split: prod.splits if_splits option.splits)

lemma rcpt_fail_trace:
  "smtp_rcpt_fail e (state, tr) code n why = Inr (state', tr') \<Longrightarrow> \<exists>new. tr' = tr @ new"
  by (auto simp: smtp_rcpt_fail_def Let_def split: prod.splits if_splits option.splits)

lemma stream_except_frame:
  "smtp_stream_except e (state, tr) code d = Inr (r, state', tr') \<Longrightarrow>
   request state' = request state \<and> final_server state' = final_server state
   \<and> error_mask state' = error_mask state \<and> session state' = session state"
  by (auto simp: smtp_stream_except_def Let_def split: prod.splits if_splits option.splits)

lemma stream_except_loop_completed:
  "stream_except_loop e state s why xs st tr = (st', tr') \<Longrightarrow> completed tr' = completed tr"
  by (induction xs arbitrary: st tr) (auto simp: Let_def completed_def split: if_splits)

lemma stream_except_trace:
  "smtp_stream_except e (state, tr) code d = Inr (r, state', tr') \<Longrightarrow>
   \<exists>new. tr' = tr @ new \<and> (\<forall>ev\<in>set new. ev_offset ev \<noteq> Some 0)"
proof -
  assume a: "smtp_stream_except e (state, tr) code d = Inr (r, state', tr')"
  show ?thesis
  proof (cases "final_server state = 0")
    case True
    with a show ?thesis
      by (auto simp: smtp_stream_except_def Let_def split: if_splits option.splits)
  next
    case False
    with a obtain s why st where "stream_except_loop e state s why (rcpt_list (request state)) (status state) tr = (st, tr')"
      by (auto simp: smtp_stream_except_def Let_def split: if_splits option.splits prod.splits)
    from stream_except_loop_trace[OF this] obtain new where
      n: "tr' = tr @ new" "\<forall>ev\<in>set new. stream_event s why ev" by blast
    have "ev_offset ev \<noteq> Some 0" if "ev \<in> set new" for ev
      using n(2) that by (fastforce simp: stream_event_def)
    with n(1) show ?thesis by blast
  qed
qed

lemma stream_except_completed:
  "smtp_stream_except e (state, tr) code d = Inr (r, state', tr') \<Longrightarrow> completed tr' = completed tr"
proof -
  assume a: "smtp_stream_except e (state, tr) code d = Inr (r, state', tr')"
  show ?thesis
  proof (cases "final_server state = 0")
    case True
    with a show ?thesis
      by (auto simp: smtp_stream_except_def Let_def completed_def split: if_splits option.splits)
  next
    case False
    with a obtain s why st where "stream_except_loop e state s why (rcpt_list (request state)) (status state) tr = (st, tr')"
      by (auto simp: smtp_stream_except_def Let_def split: if_splits option.splits prod.splits)
    from stream_except_loop_completed[OF this] show ?thesis .
  qed
qed

lemma site_fail_session:
  "smtp_site_fail e (state, tr) code why = (r, state', tr') \<Longrightarrow> session state' = session state"
  by (auto simp: smtp_site_fail_def Let_def split: prod.splits if_splits)

lemma mesg_fail_session:
  "smtp_mesg_fail e (state, tr) code why = Inr (r, state', tr') \<Longrightarrow> session state' = session state"
  by (auto simp: smtp_mesg_fail_def Let_def split: prod.splits if_splits sum.splits)

lemma rcpt_fail_session:
  "smtp_rcpt_fail e (state, tr) code n why = Inr (state', tr') \<Longrightarrow> session state' = session state"
  by (auto simp: smtp_rcpt_fail_def Let_def split: prod.splits if_splits option.splits)

lemma mesg_fail_returns:
  assumes "session state = Some s"
  shows "\<exists>r state' tr'. smtp_mesg_fail e (state, tr) code why = Inr (r, state', tr')"
  using assms
  by (auto simp: smtp_mesg_fail_def Let_def mesg_fail_loop_Some split: prod.splits)

lemma rcpt_fail_returns:
  assumes "session state = Some s" and "n < length (rcpt_list (request state))"
  shows "\<exists>state' tr'. smtp_rcpt_fail e (state, tr) code n why = Inr (state', tr')"
  using assms by (auto simp: smtp_rcpt_fail_def Let_def)

lemma stream_except_returns:
  assumes "session state = Some s" and "code = SMTP_ERR_EOF e \<or> code = SMTP_ERR_TIME e"
  shows "\<exists>r state' tr'. smtp_stream_except e (state, tr) code d = Inr (r, state', tr')"
  using assms by (auto simp: smtp_stream_except_def Let_def split: prod.splits)

subsection \<open>Faults and the error mask\<close>

lemma smtp_check_code_anomaly:
  "error_mask (smtp_check_code e state code) =
     error_mask state OR (if spec_is_protocol_anomaly code then MAIL_ERROR_PROTOCOL e else 0)"
proof -
  have "spec_is_protocol_anomaly code \<longleftrightarrow>
      (\<not> SMTP_SOFT code \<and> \<not> SMTP_HARD code) \<or> code = 555 \<or> (code \<ge> 500 \<and> code < 510)"
    by (auto simp: spec_is_protocol_anomaly_def SMTP_SOFT_iff SMTP_HARD_iff
          first_digit_4 first_digit_5)
  then show ?thesis by (simp add: smtp_check_code_def)
qed

lemma site_fail_result:
  "smtp_site_fail e (state, tr) code why =
     (fst (smtp_site_fail e (state, tr) code why),
      fst (snd (smtp_site_fail e (state, tr) code why)),
      snd (snd (smtp_site_fail e (state, tr) code why)))"
  by simp

lemma mesg_fail_fault:
  "smtp_mesg_fail e (state, tr) code why = Inl f \<longleftrightarrow>
     f = Null_session \<and> session state = None \<and> \<not> (SMTP_SOFT code \<and> final_server state = 0)
     \<and> (\<exists>r\<in>set (rcpt_list (request state)). offset r \<noteq> 0)"
proof (cases "session state")
  case None
  then show ?thesis
    by (auto simp: smtp_mesg_fail_def Let_def mesg_fail_loop_None split: prod.splits)
next
  case (Some s)
  then show ?thesis
    by (auto simp: smtp_mesg_fail_def Let_def mesg_fail_loop_Some split: prod.splits)
qed

lemma rcpt_fail_fault:
  "smtp_rcpt_fail e (state, tr) code n why = Inl Null_session \<longleftrightarrow>
     session state = None \<and> \<not> (SMTP_SOFT code \<and> final_server state = 0)
     \<and> n < length (rcpt_list (request state))"
  by (auto simp: smtp_rcpt_fail_def Let_def split: option.splits)

lemma stream_except_fault:
  "smtp_stream_except e (state, tr) code d = Inl Null_session \<longleftrightarrow>
     session state = None \<and> (code = SMTP_ERR_EOF e \<or> code = SMTP_ERR_TIME e)"
  by (auto simp: smtp_stream_except_def Let_def split: option.splits prod.splits)

lemma site_fail_relay_none:
  assumes "session state = None"
    and "ev \<in> set (drop (length tr) (snd (snd (smtp_site_fail e (state, tr) code why))))"
  shows "ev_relay ev = None \<or> ev_relay ev = Some ''none''"
proof -
  from site_fail_trace [OF site_fail_result] obtain new where
    n: "snd (snd (smtp_site_fail e (state, tr) code why)) = tr @ new"
       "\<forall>ev\<in>set new. site_event state ev" by blast
  from assms(2) n have "site_event state ev" by simp
  with assms(1) show ?thesis by (auto simp: site_event_def)
qed

subsection \<open>Finalizing one recipient\<close>





lemma zeros_update:
  "n < length xs \<Longrightarrow> offset (xs ! n) \<noteq> 0 \<Longrightarrow>
   zeros (xs[n := (xs ! n)\<lparr>offset := 0\<rparr>]) = Suc (zeros xs)"
proof (induction xs arbitrary: n)
  case Nil
  then show ?case by simp
next
  case (Cons x xs)
  then show ?case by (cases n) (auto simp: zeros_def)
qed

lemma rcpt_fail_pending_trace:
  assumes "smtp_rcpt_fail e (state, tr) code n why = Inr (state', tr')"
    and "n < length (rcpt_list (request state))" and "offset (rcpt_list (request state) ! n) \<noteq> 0"
  shows "\<exists>new. tr' = tr @ new \<and> (\<forall>ev\<in>set new. ev_offset ev \<noteq> Some 0)"
  using assms
  by (auto simp: smtp_rcpt_fail_def Let_def split: if_splits option.splits)

lemma rcpt_fail_pending_completed:
  assumes "smtp_rcpt_fail e (state, tr) code n why = Inr (state', tr')"
    and "n < length (rcpt_list (request state))" and "offset (rcpt_list (request state) ! n) \<noteq> 0"
  shows "completed tr' + zeros (rcpt_list (request state))
           = completed tr + zeros (rcpt_list (request state'))"
  using assms
  by (auto simp: smtp_rcpt_fail_def Let_def completed_def zeros_update split: if_splits option.splits)

subsection \<open>Steps and runs\<close>

lemma step_cases [consumes 1, case_names site mesg rcpt stream]:
  assumes "step e (state, tr) c = Inr (state', tr')"
  obtains
    (site) code why r where "c = Site_fail code why"
      "smtp_site_fail e (state, tr) code why = (r, state', tr')"
  | (mesg) code why r where "c = Mesg_fail code why"
      "smtp_mesg_fail e (state, tr) code why = Inr (r, state', tr')"
  | (rcpt) code n why where "c = Rcpt_fail code n why"
      "smtp_rcpt_fail e (state, tr) code n why = Inr (state', tr')"
  | (stream) code d r where "c = Stream_except code d"
      "smtp_stream_except e (state, tr) code d = Inr (r, state', tr')"
proof (cases c)
  case (Site_fail code why)
  with assms have "smtp_site_fail e (state, tr) code why
      = (fst (smtp_site_fail e (state, tr) code why), state', tr')"
    by (simp add: prod_eq_iff)
  with Site_fail show ?thesis by (rule site)
next
  case (Mesg_fail code why)
  with assms show ?thesis by (auto split: sum.splits intro: mesg)
next
  case (Rcpt_fail code n why)
  with assms show ?thesis by (auto intro: rcpt)
next
  case (Stream_except code d)
  with assms show ?thesis by (auto split: sum.splits intro: stream)
qed

lemma step_cleared:
  assumes "step e (state, tr) c = Inr (state', tr')"
  shows "list_all2 cleared (rcpt_list (request state)) (rcpt_list (request state'))"
  using assms
  by (cases rule: step_cases)
     (auto dest: site_fail_cleared mesg_fail_cleared rcpt_fail_cleared stream_except_frame
           simp: list_all2_cleared_refl)

lemma step_final_server:
  assumes "step e (state, tr) c = Inr (state', tr')"
  shows "final_server state' = final_server state \<or> final_server state' = 1"
  using assms
  by (cases rule: step_cases)
     (auto dest: site_fail_final_server mesg_fail_final_server rcpt_fail_final_server
                 stream_except_frame split: if_splits)

lemma step_pending_trace:
  assumes "step e (state, tr) c = Inr (state', tr')" and "call_pending (state, tr) c"
  shows "\<exists>new. tr' = tr @ new \<and> (\<forall>ev\<in>set new. ev_offset ev \<noteq> Some 0)"
  using assms
proof (cases rule: step_cases)
  case (rcpt code n why)
  with assms(2) rcpt_fail_pending_trace [OF rcpt(2)] show ?thesis by simp
qed (auto simp: site_event_def dest!: site_fail_trace mesg_fail_trace stream_except_trace)

lemma step_pending_completed:
  assumes "step e (state, tr) c = Inr (state', tr')" and "call_pending (state, tr) c"
  shows "completed tr' + zeros (rcpt_list (request state))
           = completed tr + zeros (rcpt_list (request state'))"
  using assms
proof (cases rule: step_cases)
  case (stream code d r)
  from stream_except_completed [OF stream(2)] stream_except_frame [OF stream(2)]
  show ?thesis by simp
next
  case (rcpt code n why)
  with assms(2) rcpt_fail_pending_completed [OF rcpt(2)] show ?thesis by simp
qed (auto dest: site_fail_completed mesg_fail_completed)

lemma run_cleared:
  "run e (state, tr) cs = Inr (state', tr') \<Longrightarrow>
   list_all2 cleared (rcpt_list (request state)) (rcpt_list (request state'))"
proof (induction cs arbitrary: state tr)
  case Nil
  then show ?case by (simp add: list_all2_cleared_refl)
next
  case (Cons c cs)
  then obtain s1 t1 where s: "step e (state, tr) c = Inr (s1, t1)"
    and r: "run e (s1, t1) cs = Inr (state', tr')"
    by (auto split: sum.splits)
  from step_cleared[OF s] Cons.IH[OF r] show ?case
    by (rule list_all2_trans[rotated]) (rule cleared_trans)
qed

lemma run_final_server:
  "run e (state, tr) cs = Inr (state', tr') \<Longrightarrow>
   final_server state' = final_server state \<or> final_server state' = 1"
proof (induction cs arbitrary: state tr)
  case Nil
  then show ?case by simp
next
  case (Cons c cs)
  then obtain s1 t1 where s: "step e (state, tr) c = Inr (s1, t1)"
    and r: "run e (s1, t1) cs = Inr (state', tr')"
    by (auto split: sum.splits)
  from step_final_server[OF s] Cons.IH[OF r] show ?case by auto
qed

lemma run_pending_trace:
  "run e (state, tr) cs = Inr (state', tr') \<Longrightarrow> pending_run e (state, tr) cs \<Longrightarrow>
   (\<exists>new. tr' = tr @ new \<and> (\<forall>ev\<in>set new. ev_offset ev \<noteq> Some 0))
   \<and> completed tr' + zeros (rcpt_list (request state)) = completed tr + zeros (rcpt_list (request state'))"
proof (induction cs arbitrary: state tr)
  case Nil
  then show ?case by simp
next
  case (Cons c cs)
  then obtain s1 t1 where s: "step e (state, tr) c = Inr (s1, t1)"
    and r: "run e (s1, t1) cs = Inr (state', tr')"
    by (auto split: sum.splits)
  from Cons.prems(2) s have c: "call_pending (state, tr) c" and cs: "pending_run e (s1, t1) cs"
    by auto
  from step_pending_trace [OF s c] obtain n1 where
    n1: "t1 = tr @ n1" "\<forall>ev\<in>set n1. ev_offset ev \<noteq> Some 0"
    by blast
  from Cons.IH [OF r cs] obtain n2 where n2: "tr' = t1 @ n2" "\<forall>ev\<in>set n2. ev_offset ev \<noteq> Some 0"
    and k: "completed tr' + zeros (rcpt_list (request s1)) = completed t1 + zeros (rcpt_list (request state'))"
    by blast
  from n1 n2 have "tr' = tr @ (n1 @ n2) \<and> (\<forall>ev\<in>set (n1 @ n2). ev_offset ev \<noteq> Some 0)" by auto
  moreover from step_pending_completed [OF s c] k
  have "completed tr' + zeros (rcpt_list (request state)) = completed tr + zeros (rcpt_list (request state'))"
    by arith
  ultimately show ?case by blast
qed

lemma pending_run_loops:
  "\<forall>c\<in>set cs. \<not> is_rcpt_fail c \<Longrightarrow> pending_run e w cs"
proof (induction cs arbitrary: w)
  case Nil
  then show ?case by simp
next
  case (Cons c cs)
  then show ?case by (cases c) (auto split: sum.splits)
qed

text \<open>With a session, a run of calls that meet the callers' obligations returns.\<close>

lemma step_session:
  assumes "step e (state, tr) c = Inr (state', tr')"
  shows "session state' = session state"
  using assms
  by (cases rule: step_cases)
     (auto dest: site_fail_session mesg_fail_session rcpt_fail_session stream_except_frame)

lemma step_returns:
  assumes "session state = Some s" and "call_ok e (length (rcpt_list (request state))) c"
  shows "\<exists>state' tr'. step e (state, tr) c = Inr (state', tr')"
proof (cases c)
  case (Site_fail code why)
  then show ?thesis by (simp add: prod_eq_iff)
next
  case (Mesg_fail code why)
  with mesg_fail_returns [OF assms(1), of e tr code why] show ?thesis by auto
next
  case (Rcpt_fail code n why)
  with assms rcpt_fail_returns [OF assms(1), of n e tr code why] show ?thesis by auto
next
  case (Stream_except code d)
  with assms stream_except_returns [OF assms(1), of code e tr d] show ?thesis by auto
qed

lemma run_returns:
  assumes "session state = Some s"
    and "\<forall>c\<in>set cs. call_ok e (length (rcpt_list (request state))) c"
  shows "\<exists>state' tr'. run e (state, tr) cs = Inr (state', tr')"
  using assms
proof (induction cs arbitrary: state tr)
  case Nil
  then show ?case by simp
next
  case (Cons c cs)
  from Cons.prems have ok: "call_ok e (length (rcpt_list (request state))) c" by simp
  from step_returns [OF Cons.prems(1) ok] obtain s1 t1 where
    st: "step e (state, tr) c = Inr (s1, t1)" by blast
  from step_session [OF st] Cons.prems(1) have s1: "session s1 = Some s" by simp
  from step_cleared [OF st] have "length (rcpt_list (request s1)) = length (rcpt_list (request state))"
    by (simp add: list_all2_lengthD)
  with Cons.prems(2) have "\<forall>c\<in>set cs. call_ok e (length (rcpt_list (request s1))) c" by simp
  from Cons.IH [OF s1 this] st show ?case by simp
qed

lemma offsets_length: "length (offsets state) = length (rcpt_list (request state))"
  by (simp add: offsets_def)

lemma finalized_pending: "finalized state + pending state = length (rcpt_list (request state))"
  unfolding finalized_def pending_def zeros_def
  by (rule sum_length_filter_compl)

lemma list_all2_cleared_offsets:
  assumes "list_all2 cleared xs ys" and "i < length xs"
  shows "offset (ys ! i) = offset (xs ! i) \<or> offset (ys ! i) = 0"
  using assms by (auto simp: list_all2_conv_all_nth cleared_def)

section \<open>The claims\<close>

subsection \<open>C1: the marker invariant\<close>

text \<open>
  C1, as stated, has no recipient finalized twice in any sequence of calls of the four
  entry points. \<^verbatim>\<open>smtp_rcpt_fail\<close> has no test of the offset: called a second time for
  the same recipient with a hard code, it calls \<^verbatim>\<open>bounce_append\<close> and
  \<^verbatim>\<open>deliver_completed\<close> again, now with offset 0. Two completion notices are logged for
  one recipient that became finalized.
\<close>

theorem marker_rcpt_fail_counterexample:
  "run env_ok (state0, []) [Rcpt_fail 550 0 ''gone'', Rcpt_fail 550 0 ''gone'']
     = Inr (state0\<lparr>request := req0\<lparr>rcpt_list := [rcpt_a\<lparr>offset := 0\<rparr>, rcpt_b, rcpt_c]\<rparr>\<rparr>,
            [Bounce_append (append_call env_ok req0 rcpt_a ''mx1'' ''gone''),
             Deliver_completed 3 120,
             Bounce_append (append_call env_ok req0 (rcpt_a\<lparr>offset := 0\<rparr>) ''mx1'' ''gone''),
             Deliver_completed 3 0])
   \<and> finalized state0 = 1
   \<and> finalized (state0\<lparr>request := req0\<lparr>rcpt_list := [rcpt_a\<lparr>offset := 0\<rparr>, rcpt_b, rcpt_c]\<rparr>\<rparr>) = 2
   \<and> completed [Bounce_append (append_call env_ok req0 rcpt_a ''mx1'' ''gone''),
             Deliver_completed 3 120,
             Bounce_append (append_call env_ok req0 (rcpt_a\<lparr>offset := 0\<rparr>) ''mx1'' ''gone''),
             Deliver_completed 3 0] = 2"
  by code_simp

text \<open>
  C1, amended: take any sequence of calls of the four entry points that returns, any
  point \<open>s1\<close> reached in it and any later point \<open>s2\<close>. The finalized recipients
  (offset 0) and the pending ones (offset not 0) add up to the number of recipients of the
  request at both points; a call changes an offset only by clearing it, so a recipient
  that is finalized never becomes pending again. The loops of \<^verbatim>\<open>smtp_site_fail\<close>,
  \<^verbatim>\<open>smtp_mesg_fail\<close> and \<^verbatim>\<open>smtp_stream_except\<close> skip the recipients whose offset
  is 0, and \<^verbatim>\<open>smtp_rcpt_fail\<close> relies on its caller: in a run where every
  \<^verbatim>\<open>smtp_rcpt_fail\<close> call is made for a recipient that is pending at that moment (any
  run without such calls is one), no logged event carries offset 0 and there is exactly
  one completion notice for each recipient that becomes finalized, so none is finalized
  twice.
\<close>

theorem marker_invariant:
  assumes "run e (s0, tr0) cs1 = Inr (s1, tr1)" and "run e (s1, tr1) cs2 = Inr (s2, tr2)"
  shows "finalized s1 + pending s1 = length (rcpt_list (request s0))
       \<and> finalized s2 + pending s2 = length (rcpt_list (request s0))
       \<and> length (offsets s2) = length (offsets s1)
       \<and> (\<forall>i < length (offsets s1). offsets s2 ! i = offsets s1 ! i \<or> offsets s2 ! i = 0)
       \<and> (\<forall>i < length (offsets s1). offsets s1 ! i = 0 \<longrightarrow> offsets s2 ! i = 0)
       \<and> ((\<forall>c\<in>set cs2. \<not> is_rcpt_fail c) \<longrightarrow> pending_run e (s1, tr1) cs2)
       \<and> (pending_run e (s1, tr1) cs2 \<longrightarrow>
            (\<forall>ev\<in>set (drop (length tr1) tr2). ev_offset ev \<noteq> Some 0)
            \<and> completed tr2 + finalized s1 = completed tr1 + finalized s2)"
proof -
  from run_cleared [OF assms(1)]
  have c1: "list_all2 cleared (rcpt_list (request s0)) (rcpt_list (request s1))" .
  from run_cleared [OF assms(2)]
  have c2: "list_all2 cleared (rcpt_list (request s1)) (rcpt_list (request s2))" .
  from c1 have l1: "length (rcpt_list (request s1)) = length (rcpt_list (request s0))"
    by (simp add: list_all2_lengthD)
  from c2 have l2: "length (rcpt_list (request s2)) = length (rcpt_list (request s1))"
    by (simp add: list_all2_lengthD)
  have a: "finalized s1 + pending s1 = length (rcpt_list (request s0))"
    by (simp add: finalized_pending l1)
  have b: "finalized s2 + pending s2 = length (rcpt_list (request s0))"
    by (simp add: finalized_pending l1 l2)
  have c: "length (offsets s2) = length (offsets s1)"
    by (simp add: offsets_length l2)
  have d: "offsets s2 ! i = offsets s1 ! i \<or> offsets s2 ! i = 0" if "i < length (offsets s1)" for i
    using list_all2_cleared_offsets [OF c2, of i] that l2 by (simp add: offsets_def)
  have d': "offsets s2 ! i = 0" if "i < length (offsets s1)" "offsets s1 ! i = 0" for i
    using d [OF that(1)] that(2) by auto
  have g: "pending_run e (s1, tr1) cs2" if "\<forall>c\<in>set cs2. \<not> is_rcpt_fail c"
    using that by (rule pending_run_loops)
  have f: "(\<forall>ev\<in>set (drop (length tr1) tr2). ev_offset ev \<noteq> Some 0)
            \<and> completed tr2 + finalized s1 = completed tr1 + finalized s2"
    if "pending_run e (s1, tr1) cs2"
    using run_pending_trace [OF assms(2) that] by (auto simp: finalized_def)
  from a b c d d' f g show ?thesis by blast
qed

text \<open>
  C1, witness: a skipped host, then a pending recipient bounced by \<^verbatim>\<open>smtp_rcpt_fail\<close>,
  the message rejected with a hard code and a lost connection.
\<close>

theorem marker_invariant_witness:
  "run env_ok (state0, []) [Site_fail 450 ''busy'']
     = Inr (state0\<lparr>status := - 1\<rparr>, [Msg_info ''Q1: busy''])
   \<and> run env_ok (state0\<lparr>status := - 1\<rparr>, [Msg_info ''Q1: busy''])
        [Rcpt_fail 550 0 ''gone'', Mesg_fail 550 ''rejected'', Stream_except 1 ''idle'']
     = Inr (state0\<lparr>request := req0\<lparr>rcpt_list := rcpts_done\<rparr>, status := - 1, final_server := 1\<rparr>,
            [Msg_info ''Q1: busy'',
             Bounce_append (append_call env_ok req0 rcpt_a ''mx1'' ''gone''),
             Deliver_completed 3 120,
             Bounce_append (append_call env_ok req0 rcpt_c ''mx1'' ''rejected''),
             Deliver_completed 3 200])
   \<and> pending_run env_ok (state0\<lparr>status := - 1\<rparr>, [Msg_info ''Q1: busy''])
        [Rcpt_fail 550 0 ''gone'', Mesg_fail 550 ''rejected'', Stream_except 1 ''idle'']
   \<and> finalized (state0\<lparr>status := - 1\<rparr>) = 1 \<and> pending (state0\<lparr>status := - 1\<rparr>) = 2
   \<and> finalized (state0\<lparr>request := req0\<lparr>rcpt_list := rcpts_done\<rparr>, status := - 1, final_server := 1\<rparr>) = 3
   \<and> pending (state0\<lparr>request := req0\<lparr>rcpt_list := rcpts_done\<rparr>, status := - 1, final_server := 1\<rparr>) = 0
   \<and> offsets (state0\<lparr>request := req0\<lparr>rcpt_list := rcpts_done\<rparr>, status := - 1, final_server := 1\<rparr>)
       = [0, 0, 0]
   \<and> completed [Msg_info ''Q1: busy'',
             Bounce_append (append_call env_ok req0 rcpt_a ''mx1'' ''gone''),
             Deliver_completed 3 120,
             Bounce_append (append_call env_ok req0 rcpt_c ''mx1'' ''rejected''),
             Deliver_completed 3 200] = 2"
proof -
  have h1: "run env_ok (state0, []) [Site_fail 450 ''busy'']
     = Inr (state0\<lparr>status := - 1\<rparr>, [Msg_info ''Q1: busy''])"
    by code_simp
  have h2: "run env_ok (state0\<lparr>status := - 1\<rparr>, [Msg_info ''Q1: busy''])
        [Rcpt_fail 550 0 ''gone'', Mesg_fail 550 ''rejected'', Stream_except 1 ''idle'']
     = Inr (state0\<lparr>request := req0\<lparr>rcpt_list := rcpts_done\<rparr>, status := - 1, final_server := 1\<rparr>,
            [Msg_info ''Q1: busy'',
             Bounce_append (append_call env_ok req0 rcpt_a ''mx1'' ''gone''),
             Deliver_completed 3 120,
             Bounce_append (append_call env_ok req0 rcpt_c ''mx1'' ''rejected''),
             Deliver_completed 3 200])"
    by code_simp
  have h3: "pending_run env_ok (state0\<lparr>status := - 1\<rparr>, [Msg_info ''Q1: busy''])
        [Rcpt_fail 550 0 ''gone'', Mesg_fail 550 ''rejected'', Stream_except 1 ''idle'']"
    by code_simp
  have h4: "finalized (state0\<lparr>status := - 1\<rparr>) = 1" by code_simp
  have h4': "pending (state0\<lparr>status := - 1\<rparr>) = 2" by code_simp
  have h5: "offsets (state0\<lparr>request := req0\<lparr>rcpt_list := rcpts_done\<rparr>, status := - 1, final_server := 1\<rparr>)
       = [0, 0, 0]" by code_simp
  have h6: "finalized (state0\<lparr>request := req0\<lparr>rcpt_list := rcpts_done\<rparr>, status := - 1, final_server := 1\<rparr>) = 3"
    by code_simp
  have h7: "completed [Msg_info ''Q1: busy''] = 0" by code_simp
  from marker_invariant [OF h1 h2] h3
  have k: "completed [Msg_info ''Q1: busy'',
             Bounce_append (append_call env_ok req0 rcpt_a ''mx1'' ''gone''),
             Deliver_completed 3 120,
             Bounce_append (append_call env_ok req0 rcpt_c ''mx1'' ''rejected''),
             Deliver_completed 3 200] + finalized (state0\<lparr>status := - 1\<rparr>)
      = completed [Msg_info ''Q1: busy'']
        + finalized (state0\<lparr>request := req0\<lparr>rcpt_list := rcpts_done\<rparr>, status := - 1, final_server := 1\<rparr>)"
    by blast
  from marker_invariant [OF h1 h2]
  have m: "finalized (state0\<lparr>request := req0\<lparr>rcpt_list := rcpts_done\<rparr>, status := - 1, final_server := 1\<rparr>)
      + pending (state0\<lparr>request := req0\<lparr>rcpt_list := rcpts_done\<rparr>, status := - 1, final_server := 1\<rparr>)
      = length (rcpt_list (request state0))"
    by blast
  have l: "length (rcpt_list (request state0)) = 3" by code_simp
  from m l h6
  have h8: "pending (state0\<lparr>request := req0\<lparr>rcpt_list := rcpts_done\<rparr>, status := - 1, final_server := 1\<rparr>) = 0"
    by linarith
  from k h4 h6 h7
  have h9: "completed [Msg_info ''Q1: busy'',
             Bounce_append (append_call env_ok req0 rcpt_a ''mx1'' ''gone''),
             Deliver_completed 3 120,
             Bounce_append (append_call env_ok req0 rcpt_c ''mx1'' ''rejected''),
             Deliver_completed 3 200] = 2"
    by linarith
  from h1 h2 h3 h4 h4' h6 h8 h5 h9 show ?thesis by blast
qed

subsection \<open>C2: the final server flag is monotonic\<close>

text \<open>
  C2: if the final server flag is set, it is still set after any sequence of calls of the
  four entry points, whatever their codes, recipients and exception kinds; a call leaves
  the flag as it was or writes 1 into it.
\<close>

theorem final_server_monotonic:
  assumes "run e (state, tr) cs = Inr (state', tr')" and "final_server state \<noteq> 0"
  shows "final_server state' \<noteq> 0
         \<and> (final_server state' = final_server state \<or> final_server state' = 1)"
  using run_final_server [OF assms(1)] assms(2) by auto

text \<open>
  C2, witness: a deferred recipient, a timeout and a refused site on the final server, with
  collaborators that fail.
\<close>

theorem final_server_monotonic_witness:
  "run env_fail (state0\<lparr>final_server := 1\<rparr>, [])
      [Rcpt_fail 450 1 ''try later'', Stream_except 2 ''waiting'', Site_fail 550 ''refused'']
     = Inr (state0\<lparr>status := - 1, final_server := 1\<rparr>,
            [Defer_append (append_call env_fail req0 rcpt_b ''mx1'' ''try later''),
             Defer_append (append_call env_fail req0 rcpt_a ''mx1''
                ''conversation with mx1 timed out while waiting''),
             Defer_append (append_call env_fail req0 rcpt_c ''mx1''
                ''conversation with mx1 timed out while waiting''),
             Bounce_append (append_call env_fail req0 rcpt_a ''mx1'' ''refused''),
             Bounce_append (append_call env_fail req0 rcpt_c ''mx1'' ''refused'')])
   \<and> final_server (state0\<lparr>final_server := 1\<rparr>) = 1
   \<and> final_server (state0\<lparr>status := - 1, final_server := 1\<rparr>) = 1"
proof -
  have h: "run env_fail (state0\<lparr>final_server := 1\<rparr>, [])
      [Rcpt_fail 450 1 ''try later'', Stream_except 2 ''waiting'', Site_fail 550 ''refused'']
     = Inr (state0\<lparr>status := - 1, final_server := 1\<rparr>,
            [Defer_append (append_call env_fail req0 rcpt_b ''mx1'' ''try later''),
             Defer_append (append_call env_fail req0 rcpt_a ''mx1''
                ''conversation with mx1 timed out while waiting''),
             Defer_append (append_call env_fail req0 rcpt_c ''mx1''
                ''conversation with mx1 timed out while waiting''),
             Bounce_append (append_call env_fail req0 rcpt_a ''mx1'' ''refused''),
             Bounce_append (append_call env_fail req0 rcpt_c ''mx1'' ''refused'')])"
    by code_simp
  have f: "final_server (state0\<lparr>final_server := 1\<rparr>) \<noteq> 0" by simp
  from final_server_monotonic [OF h f] h show ?thesis by simp
qed

subsection \<open>C3: who writes the final server flag\<close>

text \<open>
  C3: \<^verbatim>\<open>smtp_rcpt_fail\<close> leaves the final server flag as it was, for every code;
  \<^verbatim>\<open>smtp_site_fail\<close> and \<^verbatim>\<open>smtp_mesg_fail\<close> set it to 1 whenever they take the
  branch that finalizes (\<^verbatim>\<open>smtp_mesg_fail\<close> returns there whenever it has a session), and
  they take that branch whenever the code is hard or the flag was set on entry.
\<close>

theorem final_server_frame:
  "(smtp_rcpt_fail e (state, tr) code n why = Inr (state1, tr1)
      \<longrightarrow> final_server state1 = final_server state)
   \<and> (\<not> (SMTP_SOFT code \<and> final_server state = 0)
      \<longrightarrow> final_server (fst (snd (smtp_site_fail e (state, tr) code why))) = 1)
   \<and> (\<not> (SMTP_SOFT code \<and> final_server state = 0)
      \<longrightarrow> smtp_mesg_fail e (state, tr) code why = Inr (r, state2, tr2)
      \<longrightarrow> final_server state2 = 1)
   \<and> (\<not> (SMTP_SOFT code \<and> final_server state = 0) \<longrightarrow> session state \<noteq> None
      \<longrightarrow> (\<exists>r' s' t'. smtp_mesg_fail e (state, tr) code why = Inr (r', s', t')))
   \<and> (SMTP_HARD code \<or> final_server state \<noteq> 0
      \<longrightarrow> \<not> (SMTP_SOFT code \<and> final_server state = 0))"
proof (intro conjI impI)
  assume "smtp_rcpt_fail e (state, tr) code n why = Inr (state1, tr1)"
  then show "final_server state1 = final_server state" by (rule rcpt_fail_final_server)
next
  assume b: "\<not> (SMTP_SOFT code \<and> final_server state = 0)"
  obtain r0 s0 t0 where eq: "smtp_site_fail e (state, tr) code why = (r0, s0, t0)"
    by (metis prod_cases3)
  from site_fail_final_server [OF eq] b eq
  show "final_server (fst (snd (smtp_site_fail e (state, tr) code why))) = 1" by auto
next
  assume b: "\<not> (SMTP_SOFT code \<and> final_server state = 0)"
    and eq: "smtp_mesg_fail e (state, tr) code why = Inr (r, state2, tr2)"
  from mesg_fail_final_server [OF eq] b show "final_server state2 = 1" by auto
next
  assume "session state \<noteq> None"
  then obtain s where "session state = Some s" by auto
  from mesg_fail_returns [OF this]
  show "\<exists>r' s' t'. smtp_mesg_fail e (state, tr) code why = Inr (r', s', t')" .
next
  assume "SMTP_HARD code \<or> final_server state \<noteq> 0"
  then show "\<not> (SMTP_SOFT code \<and> final_server state = 0)"
    by (auto simp: SMTP_SOFT_iff SMTP_HARD_iff)
qed

text \<open>
  C3, witness: a hard code on a server that is not final.
\<close>

theorem final_server_frame_witness:
  "smtp_rcpt_fail env_ok (state0, []) 550 0 ''no such user''
     = Inr (state0\<lparr>request := req0\<lparr>rcpt_list := [rcpt_a\<lparr>offset := 0\<rparr>, rcpt_b, rcpt_c]\<rparr>\<rparr>,
            [Bounce_append (append_call env_ok req0 rcpt_a ''mx1'' ''no such user''),
             Deliver_completed 3 120])
   \<and> final_server (state0\<lparr>request := req0\<lparr>rcpt_list := [rcpt_a\<lparr>offset := 0\<rparr>, rcpt_b, rcpt_c]\<rparr>\<rparr>) = 0
   \<and> final_server (fst (snd (smtp_site_fail env_ok (state0, []) 550 ''no such user''))) = 1
   \<and> smtp_mesg_fail env_ok (state0, []) 550 ''no such user''
     = Inr (- 1, state0\<lparr>request := req0\<lparr>rcpt_list := rcpts_done\<rparr>, final_server := 1\<rparr>,
            [Bounce_append (append_call env_ok req0 rcpt_a ''mx1'' ''no such user''),
             Deliver_completed 3 120,
             Bounce_append (append_call env_ok req0 rcpt_c ''mx1'' ''no such user''),
             Deliver_completed 3 200])
   \<and> final_server (state0\<lparr>request := req0\<lparr>rcpt_list := rcpts_done\<rparr>, final_server := 1\<rparr>) = 1"
proof -
  have h1: "smtp_rcpt_fail env_ok (state0, []) 550 0 ''no such user''
     = Inr (state0\<lparr>request := req0\<lparr>rcpt_list := [rcpt_a\<lparr>offset := 0\<rparr>, rcpt_b, rcpt_c]\<rparr>\<rparr>,
            [Bounce_append (append_call env_ok req0 rcpt_a ''mx1'' ''no such user''),
             Deliver_completed 3 120])"
    by code_simp
  have h2: "smtp_mesg_fail env_ok (state0, []) 550 ''no such user''
     = Inr (- 1, state0\<lparr>request := req0\<lparr>rcpt_list := rcpts_done\<rparr>, final_server := 1\<rparr>,
            [Bounce_append (append_call env_ok req0 rcpt_a ''mx1'' ''no such user''),
             Deliver_completed 3 120,
             Bounce_append (append_call env_ok req0 rcpt_c ''mx1'' ''no such user''),
             Deliver_completed 3 200])"
    by code_simp
  have h3: "\<not> (SMTP_SOFT 550 \<and> final_server state0 = 0)" by (simp add: SMTP_SOFT_iff)
  from final_server_frame [THEN conjunct1, rule_format, OF h1]
    final_server_frame [THEN conjunct2, THEN conjunct1, rule_format, OF h3, of env_ok "[]" "''no such user''"]
    final_server_frame [THEN conjunct2, THEN conjunct2, THEN conjunct1, rule_format, OF h3 h2]
    h1 h2
  show ?thesis by (simp add: state0_def)
qed

subsection \<open>C4: the deadline tracker's on\_read\<close>

text \<open>
  C4, as stated, has the three reads of the example as one sequence (1000 bytes in 3 s,
  then 0 bytes in 50 s, then 0 bytes in 60 s) leave 99 s, then 50 s, then -10 s. By the
  rule of the same claim the second read of that sequence leaves 99 - 50 = 49 s, not 50 s.
\<close>

theorem deadline_sequence_counterexample:
  "remaining (on_read (on_read (start 100 100 500) 1000 3) 0 50) \<noteq> 50"
  by (simp add: on_read_def Let_def start_def)

text \<open>
  C4, amended: \<open>on_read\<close> subtracts the elapsed time, adds bytes / floor\_rate seconds
  when the rate is non-zero and bytes were transferred, and clamps to the ceiling. With
  ceiling 100 s, rate 500 bytes/s and start budget 100 s: a read of 1000 bytes in 3 s
  leaves 99 s; from the start budget, a read of 0 bytes in 50 s leaves 50 s and a further
  read of 0 bytes in 60 s leaves -10 s (Exhausted); as one sequence the three reads leave
  99 s, 49 s and -11 s.
\<close>

theorem deadline_on_read:
  "remaining (on_read b n elapsed) =
     min (ceiling_d b)
         (remaining b - elapsed + (if floor_rate b \<noteq> 0 \<and> n > 0 then real n / real (floor_rate b) else 0))
   \<and> ceiling_d (on_read b n elapsed) = ceiling_d b
   \<and> floor_rate (on_read b n elapsed) = floor_rate b
   \<and> remaining (on_read (start 100 100 500) 1000 3) = 99
   \<and> remaining (on_read (start 100 100 500) 0 50) = 50
   \<and> remaining (on_read (on_read (start 100 100 500) 0 50) 0 60) = - 10
   \<and> tracker_state (on_read (on_read (start 100 100 500) 0 50) 0 60) = Exhausted
   \<and> remaining (on_read (on_read (start 100 100 500) 1000 3) 0 50) = 49
   \<and> remaining (on_read (on_read (on_read (start 100 100 500) 1000 3) 0 50) 0 60) = - 11"
  by (simp add: on_read_def Let_def min_def start_def tracker_state_def)

text \<open>
  C4, witness: the rule at a read that is clamped, with the rate disabled, and at a fraction.
\<close>

theorem deadline_on_read_witness:
  "remaining (on_read (start 10 10 500) 5000 1) = 10
   \<and> remaining (on_read (start 10 10 0) 5000 1) = 9
   \<and> remaining (on_read (start 10 10 500) 250 1) = 19 / 2"
  using deadline_on_read [of "start 10 10 500" 5000 1] deadline_on_read [of "start 10 10 0" 5000 1]
    deadline_on_read [of "start 10 10 500" 250 1]
  by (simp add: start_def)

subsection \<open>C5: smtp\_stream\_except\<close>

text \<open>
  C5: on the final server \<^verbatim>\<open>smtp_stream_except\<close> is to finalize every pending
  recipient through the defer collaborator. The code calls \<^verbatim>\<open>defer_append\<close> for each
  pending recipient and folds the result into the status, but has no
  \<^verbatim>\<open>deliver_completed\<close> call and never clears an offset (\<open>stream_except_frame\<close>: the
  request is unchanged in every branch). Here the collaborator answers 0 and both pending
  recipients are still pending afterwards, where \<^verbatim>\<open>smtp_site_fail\<close> with a soft code
  leaves none; the same evaluation shows the parts of the claim that hold: only defer
  events with the composed reason, and a panic for an unknown kind.
\<close>

theorem stream_except_leaves_pending:
  "smtp_stream_except env_ok (state0\<lparr>final_server := 1\<rparr>, []) 1 ''sending DATA''
     = Inr (- 1, state0\<lparr>final_server := 1\<rparr>,
            [Defer_append (append_call env_ok req0 rcpt_a ''mx1''
               ''lost connection with mx1 while sending DATA''),
             Defer_append (append_call env_ok req0 rcpt_c ''mx1''
               ''lost connection with mx1 while sending DATA'')])
   \<and> defer_append env_ok [] (append_call env_ok req0 rcpt_a ''mx1''
               ''lost connection with mx1 while sending DATA'') = 0
   \<and> pending (state0\<lparr>final_server := 1\<rparr>) = 2
   \<and> completed [Defer_append (append_call env_ok req0 rcpt_a ''mx1''
               ''lost connection with mx1 while sending DATA''),
             Defer_append (append_call env_ok req0 rcpt_c ''mx1''
               ''lost connection with mx1 while sending DATA'')] = 0
   \<and> pending (fst (snd (smtp_site_fail env_ok (state0\<lparr>final_server := 1\<rparr>, []) 450 ''busy''))) = 0
   \<and> smtp_stream_except env_ok (state0\<lparr>final_server := 1\<rparr>, []) 3 ''sending DATA''
     = Inl (Panic ''smtp_stream_except: unknown exception'' 3)"
  by code_simp

subsection \<open>C6: finalization and collaborator failure\<close>



subsection \<open>C7: the classifier\<close>

text \<open>
  C7, as stated, lists 555 among the codes that are Neither soft nor hard. Its first digit
  is 5, and \<^verbatim>\<open>SMTP_HARD\<close> holds of it: 555 is Hard.
\<close>

theorem classify_555_counterexample: "classify 555 = Hard \<and> classify 555 \<noteq> Neither"
  by (simp add: classify_def SMTP_SOFT_iff SMTP_HARD_iff)

text \<open>
  C7, amended: for every three-digit code (and, with \<open>code div 100\<close> for the class
  digit, for every integer) the class is Soft when the first digit is 4, Hard when it is 5
  and Neither otherwise; \<^verbatim>\<open>smtp_check_code\<close> raises the protocol bit exactly when the
  class digit is neither 4 nor 5, or the code is 555, or the code is in 500..509. So
  450, 421, 499 are Soft; 550, 552, 503 are Hard; 250 and 354 are Neither; 555 is Hard and
  an anomaly; 501 is Hard and an anomaly.
\<close>

theorem classifier_by_first_digit:
  "classify code = spec_classify code
   \<and> smtp_check_code e state code =
       (if spec_is_protocol_anomaly code
        then state\<lparr>error_mask := error_mask state OR MAIL_ERROR_PROTOCOL e\<rparr> else state)
   \<and> map classify [450, 421, 499] = [Soft, Soft, Soft]
   \<and> map classify [550, 552, 503] = [Hard, Hard, Hard]
   \<and> map classify [250, 354] = [Neither, Neither]
   \<and> classify 555 = Hard \<and> spec_is_protocol_anomaly 555
   \<and> classify 501 = Hard \<and> spec_is_protocol_anomaly 501"
proof -
  have "classify code = spec_classify code"
    by (simp add: classify_def spec_classify_def SMTP_SOFT_iff SMTP_HARD_iff
          first_digit_4 first_digit_5)
  moreover have "spec_is_protocol_anomaly code \<longleftrightarrow>
      (\<not> SMTP_SOFT code \<and> \<not> SMTP_HARD code) \<or> code = 555 \<or> (code \<ge> 500 \<and> code < 510)"
    by (auto simp: spec_is_protocol_anomaly_def SMTP_SOFT_iff SMTP_HARD_iff
          first_digit_4 first_digit_5)
  then have "smtp_check_code e state code =
       (if spec_is_protocol_anomaly code
        then state\<lparr>error_mask := error_mask state OR MAIL_ERROR_PROTOCOL e\<rparr> else state)"
    by (simp only: smtp_check_code_def)
  moreover have "map classify [450, 421, 499] = [Soft, Soft, Soft]"
    and "map classify [550, 552, 503] = [Hard, Hard, Hard]"
    and "map classify [250, 354] = [Neither, Neither]"
    and "classify 555 = Hard" and "classify 501 = Hard"
    by (simp_all add: classify_def SMTP_SOFT_iff SMTP_HARD_iff)
  moreover have "spec_is_protocol_anomaly 555" and "spec_is_protocol_anomaly 501"
    by (simp_all add: spec_is_protocol_anomaly_def)
  ultimately show ?thesis by blast
qed

text \<open>
  C7, witness: the borders of the classes and of the reserved range.
\<close>

theorem classifier_by_first_digit_witness:
  "classify 499 = Soft \<and> classify 599 = Hard \<and> classify 600 = Neither
   \<and> error_mask (smtp_check_code env_ok state0 509) = 2
   \<and> error_mask (smtp_check_code env_ok state0 510) = 0"
  using classifier_by_first_digit [of 499] classifier_by_first_digit [of 599]
    classifier_by_first_digit [of 600] classifier_by_first_digit [of 509 env_ok state0]
    classifier_by_first_digit [of 510 env_ok state0]
  by (simp add: spec_classify_def spec_is_protocol_anomaly_def first_digit_def env_ok_def state0_def)

subsection \<open>C8: the error mask\<close>

text \<open>
  C8, as stated, has all four entry points pass their code to the classifier and fold the
  anomaly bit into the error mask. \<^verbatim>\<open>smtp_stream_except\<close> has no call of
  \<^verbatim>\<open>smtp_check_code\<close>: its argument is an exception kind, not a reply code. Here the
  mask stays 0 where \<^verbatim>\<open>smtp_check_code\<close> on the same value would raise the bit.
\<close>

theorem error_mask_stream_counterexample:
  "smtp_stream_except env_ok (state0, []) 1 ''sending DATA''
     = Inr (- 1, state0\<lparr>status := - 1\<rparr>,
            [Msg_info ''Q1: lost connection with mx1 while sending DATA''])
   \<and> error_mask (state0\<lparr>status := - 1\<rparr>) = 0
   \<and> error_mask (smtp_check_code env_ok state0 1) = 2"
  by code_simp

text \<open>
  C8, amended: \<^verbatim>\<open>smtp_site_fail\<close>, \<^verbatim>\<open>smtp_mesg_fail\<close> and \<^verbatim>\<open>smtp_rcpt_fail\<close>, in
  every branch that returns, fold the protocol-anomaly bit of their code into the error
  mask; \<^verbatim>\<open>smtp_stream_except\<close> leaves the error mask as it was.
\<close>

theorem error_mask_accumulates:
  "error_mask (fst (snd (smtp_site_fail e (state, tr) code why))) =
     error_mask state OR (if spec_is_protocol_anomaly code then MAIL_ERROR_PROTOCOL e else 0)
   \<and> (smtp_mesg_fail e (state, tr) code why = Inr (r, state1, tr1) \<longrightarrow>
        error_mask state1 =
          error_mask state OR (if spec_is_protocol_anomaly code then MAIL_ERROR_PROTOCOL e else 0))
   \<and> (smtp_rcpt_fail e (state, tr) code n why = Inr (state2, tr2) \<longrightarrow>
        error_mask state2 =
          error_mask state OR (if spec_is_protocol_anomaly code then MAIL_ERROR_PROTOCOL e else 0))
   \<and> (smtp_stream_except e (state, tr) code why = Inr (r', state3, tr3) \<longrightarrow>
        error_mask state3 = error_mask state)"
proof (intro conjI impI)
  from site_fail_error_mask [OF site_fail_result]
  show "error_mask (fst (snd (smtp_site_fail e (state, tr) code why))) =
     error_mask state OR (if spec_is_protocol_anomaly code then MAIL_ERROR_PROTOCOL e else 0)"
    by (simp only: smtp_check_code_anomaly)
next
  assume "smtp_mesg_fail e (state, tr) code why = Inr (r, state1, tr1)"
  from mesg_fail_error_mask [OF this]
  show "error_mask state1 =
          error_mask state OR (if spec_is_protocol_anomaly code then MAIL_ERROR_PROTOCOL e else 0)"
    by (simp only: smtp_check_code_anomaly)
next
  assume "smtp_rcpt_fail e (state, tr) code n why = Inr (state2, tr2)"
  from rcpt_fail_error_mask [OF this]
  show "error_mask state2 =
          error_mask state OR (if spec_is_protocol_anomaly code then MAIL_ERROR_PROTOCOL e else 0)"
    by (simp only: smtp_check_code_anomaly)
next
  assume "smtp_stream_except e (state, tr) code why = Inr (r', state3, tr3)"
  from stream_except_frame [OF this] show "error_mask state3 = error_mask state" by simp
qed

text \<open>
  C8, witness: an anomalous hard code, a plain soft code and a code that is neither.
\<close>

theorem error_mask_accumulates_witness:
  "error_mask (fst (snd (smtp_site_fail env_fail (state0, []) 503 ''bad sequence''))) = 2
   \<and> error_mask (fst (snd (smtp_site_fail env_fail (state0, []) 450 ''busy''))) = 0
   \<and> smtp_rcpt_fail env_ok (state0, []) 250 0 ''ok''
     = Inr (state0\<lparr>request := req0\<lparr>rcpt_list := [rcpt_a\<lparr>offset := 0\<rparr>, rcpt_b, rcpt_c]\<rparr>,
                   error_mask := 2\<rparr>,
            [Bounce_append (append_call env_ok req0 rcpt_a ''mx1'' ''ok''),
             Deliver_completed 3 120])"
proof -
  have h: "smtp_rcpt_fail env_ok (state0, []) 250 0 ''ok''
     = Inr (state0\<lparr>request := req0\<lparr>rcpt_list := [rcpt_a\<lparr>offset := 0\<rparr>, rcpt_b, rcpt_c]\<rparr>,
                   error_mask := 2\<rparr>,
            [Bounce_append (append_call env_ok req0 rcpt_a ''mx1'' ''ok''),
             Deliver_completed 3 120])"
    by code_simp
  from error_mask_accumulates [THEN conjunct1, of env_fail state0 "[]" 503 "''bad sequence''"]
    error_mask_accumulates [THEN conjunct1, of env_fail state0 "[]" 450 "''busy''"]
    error_mask_accumulates [THEN conjunct2, THEN conjunct2, THEN conjunct1, rule_format, OF h] h
  show ?thesis
    by (simp add: spec_is_protocol_anomaly_def first_digit_def state0_def env_fail_def env_ok_def)
qed

subsection \<open>C9: the hop status cache\<close>

text \<open>
  C9: \<^verbatim>\<open>smtp_site_fail\<close> writes the hop status exactly when the code is soft, the
  final server flag is set (the finalizing branch) and nothing is cached yet, and then it
  caches the reason; \<^verbatim>\<open>smtp_mesg_fail\<close>, \<^verbatim>\<open>smtp_rcpt_fail\<close> and
  \<^verbatim>\<open>smtp_stream_except\<close> never change it.
\<close>

theorem hop_status_first_write:
  "hop_status (request (fst (snd (smtp_site_fail e (state, tr) code why)))) =
     (if SMTP_SOFT code \<and> final_server state \<noteq> 0 \<and> hop_status (request state) = None
      then Some why else hop_status (request state))
   \<and> (smtp_mesg_fail e (state, tr) code why = Inr (r, state1, tr1)
      \<longrightarrow> hop_status (request state1) = hop_status (request state))
   \<and> (smtp_rcpt_fail e (state, tr) code n why = Inr (state2, tr2)
      \<longrightarrow> hop_status (request state2) = hop_status (request state))
   \<and> (smtp_stream_except e (state, tr) code why = Inr (r', state3, tr3)
      \<longrightarrow> hop_status (request state3) = hop_status (request state))"
proof (intro conjI impI)
  obtain r0 s0 t0 where eq: "smtp_site_fail e (state, tr) code why = (r0, s0, t0)"
    by (metis prod_cases3)
  from site_fail_hop_status [OF eq] eq
  show "hop_status (request (fst (snd (smtp_site_fail e (state, tr) code why)))) =
     (if SMTP_SOFT code \<and> final_server state \<noteq> 0 \<and> hop_status (request state) = None
      then Some why else hop_status (request state))" by simp
next
  assume "smtp_mesg_fail e (state, tr) code why = Inr (r, state1, tr1)"
  then show "hop_status (request state1) = hop_status (request state)"
    by (rule mesg_fail_hop_status)
next
  assume "smtp_rcpt_fail e (state, tr) code n why = Inr (state2, tr2)"
  then show "hop_status (request state2) = hop_status (request state)"
    by (rule rcpt_fail_hop_status)
next
  assume "smtp_stream_except e (state, tr) code why = Inr (r', state3, tr3)"
  from stream_except_frame [OF this]
  show "hop_status (request state3) = hop_status (request state)" by simp
qed

text \<open>
  C9, witness: the first write, a cache that is already filled, the skip branch, a hard
  code, and \<^verbatim>\<open>smtp_mesg_fail\<close> on the final server.
\<close>

theorem hop_status_first_write_witness:
  "hop_status (request (fst (snd (smtp_site_fail env_ok (state0\<lparr>final_server := 1\<rparr>, []) 450 ''busy''))))
     = Some ''busy''
   \<and> hop_status (request (fst (snd (smtp_site_fail env_ok
        (state0\<lparr>request := req0\<lparr>hop_status := Some ''first''\<rparr>, final_server := 1\<rparr>, []) 450 ''busy''))))
     = Some ''first''
   \<and> hop_status (request (fst (snd (smtp_site_fail env_ok (state0, []) 450 ''busy'')))) = None
   \<and> hop_status (request (fst (snd (smtp_site_fail env_ok (state0, []) 550 ''refused'')))) = None
   \<and> smtp_mesg_fail env_ok (state0\<lparr>final_server := 1\<rparr>, []) 451 ''later''
     = Inr (- 1, state0\<lparr>request := req0\<lparr>rcpt_list := rcpts_done\<rparr>, final_server := 1\<rparr>,
            [Defer_append (append_call env_ok req0 rcpt_a ''mx1'' ''later''),
             Deliver_completed 3 120,
             Defer_append (append_call env_ok req0 rcpt_c ''mx1'' ''later''),
             Deliver_completed 3 200])
   \<and> hop_status (request (state0\<lparr>request := req0\<lparr>rcpt_list := rcpts_done\<rparr>, final_server := 1\<rparr>)) = None"
proof -
  have h: "smtp_mesg_fail env_ok (state0\<lparr>final_server := 1\<rparr>, []) 451 ''later''
     = Inr (- 1, state0\<lparr>request := req0\<lparr>rcpt_list := rcpts_done\<rparr>, final_server := 1\<rparr>,
            [Defer_append (append_call env_ok req0 rcpt_a ''mx1'' ''later''),
             Deliver_completed 3 120,
             Defer_append (append_call env_ok req0 rcpt_c ''mx1'' ''later''),
             Deliver_completed 3 200])"
    by code_simp
  have s1: "SMTP_SOFT 450" and s2: "\<not> SMTP_SOFT 550" by (simp_all add: SMTP_SOFT_iff)
  from hop_status_first_write [THEN conjunct1, of env_ok "state0\<lparr>final_server := 1\<rparr>" "[]" 450 "''busy''"]
    hop_status_first_write [THEN conjunct1, of env_ok
      "state0\<lparr>request := req0\<lparr>hop_status := Some ''first''\<rparr>, final_server := 1\<rparr>" "[]" 450 "''busy''"]
    hop_status_first_write [THEN conjunct1, of env_ok state0 "[]" 450 "''busy''"]
    hop_status_first_write [THEN conjunct1, of env_ok state0 "[]" 550 "''refused''"]
    hop_status_first_write [THEN conjunct2, THEN conjunct1, rule_format, OF h]
    h s1 s2
  show ?thesis by (simp add: state0_def req0_def)
qed

subsection \<open>C10: the session\<close>

text \<open>
  C10, as stated, has \<^verbatim>\<open>smtp_mesg_fail\<close>, \<^verbatim>\<open>smtp_rcpt_fail\<close> and
  \<^verbatim>\<open>smtp_stream_except\<close> read the session's name unconditionally.
  \<^verbatim>\<open>smtp_mesg_fail\<close> reads it only inside its loop, at a pending recipient: with no
  session, a soft code on a server that is not final returns normally.
\<close>

theorem mesg_fail_no_session_counterexample:
  "smtp_mesg_fail env_ok (state0\<lparr>session := None\<rparr>, []) 450 ''busy''
     = Inr (- 1, state0\<lparr>session := None, status := - 1\<rparr>, [Msg_info ''Q1: busy''])"
  by code_simp

text \<open>
  C10, amended: \<^verbatim>\<open>smtp_site_fail\<close> returns for every input, and with no session every
  defer or bounce call it makes names the host \<open>none\<close>. The other three read the
  session's name with no null check, on these paths only: \<^verbatim>\<open>smtp_mesg_fail\<close> in its
  finalizing branch when some recipient is pending (it has no other fault),
  \<^verbatim>\<open>smtp_rcpt_fail\<close> in its finalizing branch, \<^verbatim>\<open>smtp_stream_except\<close> on every call
  with a recognized kind. A session is a precondition of exactly those paths.
\<close>

theorem session_precondition:
  "(session state = None \<longrightarrow>
      (\<forall>ev\<in>set (drop (length tr) (snd (snd (smtp_site_fail e (state, tr) code why)))).
          ev_relay ev = None \<or> ev_relay ev = Some ''none''))
   \<and> (smtp_mesg_fail e (state, tr) code why = Inl f \<longleftrightarrow>
        f = Null_session \<and> session state = None \<and> \<not> (SMTP_SOFT code \<and> final_server state = 0)
        \<and> (\<exists>r\<in>set (rcpt_list (request state)). offset r \<noteq> 0))
   \<and> (smtp_rcpt_fail e (state, tr) code n why = Inl Null_session \<longleftrightarrow>
        session state = None \<and> \<not> (SMTP_SOFT code \<and> final_server state = 0)
        \<and> n < length (rcpt_list (request state)))
   \<and> (smtp_stream_except e (state, tr) code why = Inl Null_session \<longleftrightarrow>
        session state = None \<and> (code = SMTP_ERR_EOF e \<or> code = SMTP_ERR_TIME e))"
  using site_fail_relay_none [of state _ tr e code why]
    mesg_fail_fault [of e state tr code why f] rcpt_fail_fault [of e state tr code n why]
    stream_except_fault [of e state tr code why]
  by blast

text \<open>
  C10, witness: a hard code with no session, at each of the four entry points.
\<close>

theorem session_precondition_witness:
  "snd (snd (smtp_site_fail env_ok (state0\<lparr>session := None\<rparr>, []) 550 ''refused''))
     = [Bounce_append (append_call env_ok req0 rcpt_a ''none'' ''refused''),
        Deliver_completed 3 120,
        Bounce_append (append_call env_ok req0 rcpt_c ''none'' ''refused''),
        Deliver_completed 3 200]
   \<and> smtp_mesg_fail env_ok (state0\<lparr>session := None\<rparr>, []) 550 ''refused'' = Inl Null_session
   \<and> smtp_rcpt_fail env_ok (state0\<lparr>session := None\<rparr>, []) 550 0 ''no such user'' = Inl Null_session
   \<and> smtp_stream_except env_ok (state0\<lparr>session := None\<rparr>, []) 2 ''waiting'' = Inl Null_session"
proof -
  have h: "snd (snd (smtp_site_fail env_ok (state0\<lparr>session := None\<rparr>, []) 550 ''refused''))
     = [Bounce_append (append_call env_ok req0 rcpt_a ''none'' ''refused''),
        Deliver_completed 3 120,
        Bounce_append (append_call env_ok req0 rcpt_c ''none'' ''refused''),
        Deliver_completed 3 200]"
    by code_simp
  have s: "\<not> SMTP_SOFT 550" by (simp add: SMTP_SOFT_iff)
  from session_precondition [of "state0\<lparr>session := None\<rparr>" "[]" env_ok 550 "''refused''" Null_session 0]
    session_precondition [of "state0\<lparr>session := None\<rparr>" "[]" env_ok 550 "''no such user''" Null_session 0]
    session_precondition [of "state0\<lparr>session := None\<rparr>" "[]" env_ok 2 "''waiting''" Null_session 0]
    h s
  show ?thesis by (simp add: state0_def req0_def rcpt_a_def env_ok_def)
qed

end
